theory Spec2Isabelle
  imports Main
begin

section \<open>The authentication-state hook of ra-core (useAuthState.ts)\<close>

text \<open>
  The hook \<open>useAuthState\<close> combines the result of a react-query \<open>useQuery\<close> call with
  two \<open>useEffect\<close> hooks and one \<open>useMemo\<close>. It is embedded as a function of what the
  component instance remembers from its previous render and of everything the hook
  reads on the current render; it returns the state object, the calls made by the
  effects that ran (in order), and what the instance remembers afterwards.
\<close>

subsection \<open>JavaScript values\<close>

text \<open>
  The values the source tells apart: \<open>undefined\<close>, \<open>null\<close>, booleans, strings, and
  objects. Of an object only the two properties the source reads (\<open>message\<close> and
  \<open>redirectTo\<close>) are kept; an absent property reads as \<open>undefined\<close>. The first
  argument of \<open>JObj\<close> is the object's reference: \<open>Object.is\<close>, which React uses to
  compare effect dependencies, compares objects by reference.
\<close>

datatype jsval =
    JUndefined
  | JNull
  | JBool bool
  | JStr string
  | JObj nat jsval jsval

datatype js_exception = TypeError

datatype js_type = TyUndefined | TyObject | TyBoolean | TyString

fun typeof :: "jsval \<Rightarrow> js_type" where
  "typeof JUndefined = TyUndefined"
| "typeof JNull = TyObject"
| "typeof (JBool b) = TyBoolean"
| "typeof (JStr s) = TyString"
| "typeof (JObj a m r) = TyObject"

text \<open>Truthiness, as tested by \<open>if (v)\<close>, \<open>!v\<close>, \<open>v && w\<close>.\<close>

fun truthy :: "jsval \<Rightarrow> bool" where
  "truthy JUndefined = False"
| "truthy JNull = False"
| "truthy (JBool b) = b"
| "truthy (JStr s) = (s \<noteq> [])"
| "truthy (JObj a m r) = True"

text \<open>\<open>v == null\<close> holds of \<open>null\<close> and \<open>undefined\<close> only.\<close>

fun loose_eq_null :: "jsval \<Rightarrow> bool" where
  "loose_eq_null JUndefined = True"
| "loose_eq_null JNull = True"
| "loose_eq_null v = False"

text \<open>
  Property reads \<open>v.message\<close> and \<open>v.redirectTo\<close>: a TypeError on \<open>undefined\<close> and
  \<open>null\<close>, \<open>undefined\<close> on a boolean or a string, the property on an object.
\<close>

fun get_message :: "jsval \<Rightarrow> js_exception + jsval" where
  "get_message JUndefined = Inl TypeError"
| "get_message JNull = Inl TypeError"
| "get_message (JObj a m r) = Inr m"
| "get_message v = Inr JUndefined"

fun get_redirectTo :: "jsval \<Rightarrow> js_exception + jsval" where
  "get_redirectTo JUndefined = Inl TypeError"
| "get_redirectTo JNull = Inl TypeError"
| "get_redirectTo (JObj a m r) = Inr r"
| "get_redirectTo v = Inr JUndefined"

text \<open>\<open>Object.is\<close>: by reference on objects, by value on the primitives above.\<close>

fun object_is :: "jsval \<Rightarrow> jsval \<Rightarrow> bool" where
  "object_is (JObj a m r) (JObj a' m' r') = (a = a')"
| "object_is v w = (v = w)"

subsection \<open>getErrorMessage (lines 133-138)\<close>

text \<open>
  \<^verbatim>\<open>typeof error === 'string' ? error
    : typeof error === 'undefined' || !error.message ? defaultMessage : error.message\<close>
\<close>

definition getErrorMessage :: "jsval \<Rightarrow> jsval \<Rightarrow> js_exception + jsval" where
  "getErrorMessage error defaultMessage =
     (if typeof error = TyString then Inr error
      else if typeof error = TyUndefined then Inr defaultMessage
      else (case get_message error of
              Inl ex \<Rightarrow> Inl ex
            | Inr m \<Rightarrow> if \<not> truthy m then Inr defaultMessage else get_message error))"

subsection \<open>What the hook reads on a render\<close>

text \<open>
  The result object of \<^verbatim>\<open>useQuery<boolean, any>\<close>: \<open>data\<close> is a boolean or
  \<open>undefined\<close> (\<open>None\<close>), \<open>error\<close> is any value, \<open>null\<close> when there is none.
\<close>

record UseQueryResult =
  data :: "bool option"
  isLoading :: bool
  error :: jsval

datatype 'a promise = Outstanding | Fulfilled 'a | Rejected jsval

fun promise_then :: "'a promise \<Rightarrow> ('a \<Rightarrow> 'b) \<Rightarrow> 'b promise" where
  "promise_then Outstanding f = Outstanding"
| "promise_then (Fulfilled v) f = Fulfilled (f v)"
| "promise_then (Rejected e) f = Rejected e"

record AuthProvider =
  checkAuth :: "jsval \<Rightarrow> jsval promise"

record AuthParams =
  loginUrl :: string

text \<open>
  Functions are compared by identity only, so a callback, and the functions returned by
  \<open>useLogout\<close> and \<open>useNotify\<close>, are represented by a reference. The constant
  \<open>defaultAuthParams\<close> is declared in another module (./useAuthProvider) and is taken
  as a parameter.
\<close>

record render_input =
  params :: jsval
  logoutOnFailure :: bool
  onSuccess :: "nat option"
  onError :: "nat option"
  authProvider :: "AuthProvider option"
  logout :: nat
  basename :: string
  notify :: nat
  defaultAuthParams :: AuthParams
  result :: UseQueryResult

text \<open>The query function (lines 65-68): \<open>authProvider?.checkAuth(params).then(() => true)\<close>.\<close>

definition queryFn :: "AuthProvider option \<Rightarrow> jsval \<Rightarrow> bool promise option" where
  "queryFn ap ps =
     (case ap of
        None \<Rightarrow> None
      | Some provider \<Rightarrow> Some (promise_then (checkAuth provider ps) (\<lambda>_. True)))"

text \<open>
  Modelled from the spec: \<open>removeDoubleSlashes\<close> is imported from ../routing, which is
  not among the sources. The spec describes the default login URL as "base path +
  canonical login segment, normalized to collapse duplicate path separators": every run
  of consecutive \<open>/\<close> becomes a single \<open>/\<close>.
\<close>

fun removeDoubleSlashes :: "string \<Rightarrow> string" where
  "removeDoubleSlashes (a # b # cs) =
     (if a = CHR ''/'' \<and> b = CHR ''/'' then removeDoubleSlashes (b # cs)
      else a # removeDoubleSlashes (b # cs))"
| "removeDoubleSlashes cs = cs"

subsection \<open>What the hook does\<close>

record notify_options =
  type :: string

text \<open>
  The calls an effect makes: the two callbacks with their reference and argument,
  \<open>logout\<close> with its two arguments (the first, an object literal, as its list of
  properties), \<open>notify\<close> with its two arguments, and an exception thrown.
\<close>

datatype call =
    CallOnSuccess nat bool
  | CallOnError nat jsval
  | Logout "(string \<times> jsval) list" jsval
  | Notify jsval notify_options
  | Throw js_exception

record State =
  isLoading :: bool
  authenticated :: bool
  error :: jsval

text \<open>
  The first effect (lines 73-77):
  \<^verbatim>\<open>if (result.data && onSuccess) { onSuccess(result.data); }\<close>
\<close>

definition success_effect :: "render_input \<Rightarrow> call list" where
  "success_effect p =
     (case data (result p) of
        None \<Rightarrow> []
      | Some d \<Rightarrow>
          if d then (case onSuccess p of None \<Rightarrow> [] | Some cb \<Rightarrow> [CallOnSuccess cb d])
          else [])"

text \<open>
  The second argument of \<open>logout\<close> (lines 91-93):
  \<^verbatim>\<open>result.error && result.error.redirectTo != null ? result.error.redirectTo : loginUrl\<close>
\<close>

definition logout_redirect :: "jsval \<Rightarrow> string \<Rightarrow> js_exception + jsval" where
  "logout_redirect err url =
     (if truthy err then
        (case get_redirectTo err of
           Inl ex \<Rightarrow> Inl ex
         | Inr v \<Rightarrow> if \<not> loose_eq_null v then get_redirectTo err else Inr (JStr url))
      else Inr (JStr url))"

text \<open>
  Lines 95-96: \<^verbatim>\<open>result.error && result.error.message === false\<close>, which is the
  error itself when that is falsy.
\<close>

definition shouldSkipNotify :: "jsval \<Rightarrow> js_exception + jsval" where
  "shouldSkipNotify err =
     (if truthy err then
        (case get_message err of
           Inl ex \<Rightarrow> Inl ex
         | Inr m \<Rightarrow> Inr (JBool (m = JBool False)))
      else Inr err)"

text \<open>
  The second effect (lines 79-109). An exception ends the effect; the calls made before
  it stay.
\<close>

definition error_effect :: "render_input \<Rightarrow> call list" where
  "error_effect p =
     (let err = UseQueryResult.error (result p) in
      if truthy err then
        (case onError p of
           Some cb \<Rightarrow> [CallOnError cb err]
         | None \<Rightarrow>
             (let url = removeDoubleSlashes
                          (basename p @ ''/'' @ loginUrl (defaultAuthParams p)) in
              if logoutOnFailure p then
                (case logout_redirect err url of
                   Inl ex \<Rightarrow> [Throw ex]
                 | Inr target \<Rightarrow>
                     Logout [] target #
                     (case shouldSkipNotify err of
                        Inl ex \<Rightarrow> [Throw ex]
                      | Inr skip \<Rightarrow>
                          if \<not> truthy skip then
                            (case getErrorMessage err (JStr ''ra.auth.auth_check_error'') of
                               Inl ex \<Rightarrow> [Throw ex]
                             | Inr m \<Rightarrow> [Notify m \<lparr>type = ''error''\<rparr>])
                          else []))
              else []))
      else [])"

text \<open>
  The object built inside \<open>useMemo\<close> (lines 111-120). The conditional operator binds
  weaker than \<open>??\<close>, so the expression is
  \<^verbatim>\<open>(result.data ?? result.isLoading) ? true : (authProvider == null)\<close>.
  Its value depends on the memo's dependencies \<open>[authProvider, result]\<close> only, so the
  memoised object and a fresh one have the same fields.
\<close>

definition returned_state :: "render_input \<Rightarrow> State" where
  "returned_state p =
     \<lparr>isLoading = UseQueryResult.isLoading (result p),
      authenticated =
        (if (case data (result p) of Some d \<Rightarrow> d | None \<Rightarrow> UseQueryResult.isLoading (result p))
         then True else authProvider p = None),
      error = UseQueryResult.error (result p)\<rparr>"

subsection \<open>Effects and their dependencies\<close>

text \<open>
  React runs an effect after the first render and after every render on which one of its
  dependencies differs (by \<open>Object.is\<close>) from the previous render's. The component
  instance therefore remembers the dependencies of each effect; \<open>None\<close> before the
  first render.
\<close>

type_synonym success_deps = "nat option \<times> bool option"

type_synonym error_deps = "string \<times> nat \<times> bool \<times> nat \<times> nat option \<times> jsval"

record hook_memory =
  prev_success_deps :: "success_deps option"
  prev_error_deps :: "error_deps option"

definition unmounted :: hook_memory where
  "unmounted = \<lparr>prev_success_deps = None, prev_error_deps = None\<rparr>"

text \<open>\<open>[onSuccess, result.data]\<close> (line 77)\<close>

definition success_deps :: "render_input \<Rightarrow> success_deps" where
  "success_deps p = (onSuccess p, data (result p))"

text \<open>\<open>[basename, logout, logoutOnFailure, notify, onError, result.error]\<close> (line 109)\<close>

definition error_deps :: "render_input \<Rightarrow> error_deps" where
  "error_deps p =
     (basename p, logout p, logoutOnFailure p, notify p, onError p,
      UseQueryResult.error (result p))"

definition same_success_deps :: "success_deps \<Rightarrow> success_deps \<Rightarrow> bool" where
  "same_success_deps d d' = (d = d')"

fun same_error_deps :: "error_deps \<Rightarrow> error_deps \<Rightarrow> bool" where
  "same_error_deps (b, l, f, n, c, e) (b', l', f', n', c', e') =
     (b = b' \<and> l = l' \<and> f = f' \<and> n = n' \<and> c = c' \<and> object_is e e')"

definition useEffect :: "('d \<Rightarrow> 'd \<Rightarrow> bool) \<Rightarrow> 'd option \<Rightarrow> 'd \<Rightarrow> call list \<Rightarrow> call list" where
  "useEffect same prev deps effect =
     (case prev of
        None \<Rightarrow> effect
      | Some d \<Rightarrow> if same d deps then [] else effect)"

record render =
  returned :: State
  calls :: "call list"
  memory :: hook_memory

definition useAuthState :: "hook_memory \<Rightarrow> render_input \<Rightarrow> render" where
  "useAuthState mem p =
     \<lparr>returned = returned_state p,
      calls =
        useEffect same_success_deps (prev_success_deps mem) (success_deps p) (success_effect p) @
        useEffect same_error_deps (prev_error_deps mem) (error_deps p) (error_effect p),
      memory = \<lparr>prev_success_deps = Some (success_deps p),
                prev_error_deps = Some (error_deps p)\<rparr>\<rparr>"

text \<open>The calls made over a sequence of renders of one component instance.\<close>

fun renders :: "hook_memory \<Rightarrow> render_input list \<Rightarrow> call list" where
  "renders mem [] = []"
| "renders mem (p # ps) =
     calls (useAuthState mem p) @ renders (memory (useAuthState mem p)) ps"

text \<open>The calls of each kind, in order.\<close>

fun onSuccess_calls :: "call list \<Rightarrow> (nat \<times> bool) list" where
  "onSuccess_calls [] = []"
| "onSuccess_calls (CallOnSuccess cb d # cs) = (cb, d) # onSuccess_calls cs"
| "onSuccess_calls (c # cs) = onSuccess_calls cs"

fun onError_calls :: "call list \<Rightarrow> (nat \<times> jsval) list" where
  "onError_calls [] = []"
| "onError_calls (CallOnError cb e # cs) = (cb, e) # onError_calls cs"
| "onError_calls (c # cs) = onError_calls cs"

fun logout_calls :: "call list \<Rightarrow> ((string \<times> jsval) list \<times> jsval) list" where
  "logout_calls [] = []"
| "logout_calls (Logout ctx target # cs) = (ctx, target) # logout_calls cs"
| "logout_calls (c # cs) = logout_calls cs"

fun notify_calls :: "call list \<Rightarrow> (jsval \<times> notify_options) list" where
  "notify_calls [] = []"
| "notify_calls (Notify m opts # cs) = (m, opts) # notify_calls cs"
| "notify_calls (c # cs) = notify_calls cs"

text \<open>
  Whether the second effect runs on this render: on the first render, or when a
  dependency changed.
\<close>

definition error_effect_runs :: "hook_memory \<Rightarrow> render_input \<Rightarrow> bool" where
  "error_effect_runs mem p =
     (case prev_error_deps mem of
        None \<Rightarrow> True
      | Some d \<Rightarrow> \<not> same_error_deps d (error_deps p))"

text \<open>Whether a path has two adjacent separators.\<close>

fun double_slash :: "string \<Rightarrow> bool" where
  "double_slash (a # b # cs) = ((a = CHR ''/'' \<and> b = CHR ''/'') \<or> double_slash (b # cs))"
| "double_slash cs = False"

subsection \<open>Concrete renders\<close>

text \<open>
  The three results the hook is documented for: the call outstanding, the call
  resolved, the call rejected with \<open>e\<close>.
\<close>

definition pending_result :: UseQueryResult where
  "pending_result =
     \<lparr>data = None, UseQueryResult.isLoading = True, UseQueryResult.error = JNull\<rparr>"

definition success_result :: UseQueryResult where
  "success_result =
     \<lparr>data = Some True, UseQueryResult.isLoading = False, UseQueryResult.error = JNull\<rparr>"

definition failure_result :: "jsval \<Rightarrow> UseQueryResult" where
  "failure_result e =
     \<lparr>data = None, UseQueryResult.isLoading = False, UseQueryResult.error = e\<rparr>"

text \<open>The error objects \<^verbatim>\<open>{message: 'Session expired'}\<close> and \<^verbatim>\<open>{message: false}\<close>.\<close>

definition session_expired :: jsval where
  "session_expired = JObj 1 (JStr ''Session expired'') JUndefined"

definition silent_error :: jsval where
  "silent_error = JObj 2 (JBool False) JUndefined"

text \<open>
  A later call for the same key in flight after an earlier one had resolved: the query
  keeps the earlier data and is fetching, which react-query does not count as loading.
  The three fields the hook reads are those of the resolved query.
\<close>

definition refetching_result :: UseQueryResult where
  "refetching_result =
     \<lparr>data = Some True, UseQueryResult.isLoading = False, UseQueryResult.error = JNull\<rparr>"

text \<open>
  A later call for the same key rejected after an earlier one had resolved: the query
  holds the error and still holds the earlier data.
\<close>

definition refetch_failure_result :: "jsval \<Rightarrow> UseQueryResult" where
  "refetch_failure_result e =
     \<lparr>data = Some True, UseQueryResult.isLoading = False, UseQueryResult.error = e\<rparr>"

text \<open>
  An application mounted at \<open>/admin\<close> that calls \<^verbatim>\<open>useAuthState({}, true)\<close>, with a
  provider that rejects; \<open>r\<close> is what \<open>useQuery\<close> returns on the render.
\<close>

definition admin_page :: "UseQueryResult \<Rightarrow> render_input" where
  "admin_page r =
     \<lparr>params = JObj 0 JUndefined JUndefined,
      logoutOnFailure = True,
      onSuccess = None,
      onError = None,
      authProvider = Some \<lparr>checkAuth = (\<lambda>ps. Rejected session_expired)\<rparr>,
      logout = 10,
      basename = ''/admin'',
      notify = 11,
      defaultAuthParams = \<lparr>loginUrl = ''/login''\<rparr>,
      result = r\<rparr>"

text \<open>The same application with a provider whose call has not settled yet.\<close>

definition waiting_page :: "UseQueryResult \<Rightarrow> render_input" where
  "waiting_page r = (admin_page r)\<lparr>authProvider := Some \<lparr>checkAuth = (\<lambda>ps. Outstanding)\<rparr>\<rparr>"

text \<open>What the instance remembers after a first render with the call outstanding.\<close>

definition after_pending :: hook_memory where
  "after_pending = memory (useAuthState unmounted (admin_page pending_result))"

text \<open>... and after a second render with the call resolved.\<close>

definition after_success :: hook_memory where
  "after_success = memory (useAuthState after_pending (admin_page success_result))"

section \<open>Properties\<close>

subsection \<open>Auxiliary facts\<close>

lemma logout_calls_append: "logout_calls (xs @ ys) = logout_calls xs @ logout_calls ys"
  by (induction xs rule: logout_calls.induct) simp_all

lemma notify_calls_append: "notify_calls (xs @ ys) = notify_calls xs @ notify_calls ys"
  by (induction xs rule: notify_calls.induct) simp_all

lemma onError_calls_append: "onError_calls (xs @ ys) = onError_calls xs @ onError_calls ys"
  by (induction xs rule: onError_calls.induct) simp_all

lemma onSuccess_calls_append:
  "onSuccess_calls (xs @ ys) = onSuccess_calls xs @ onSuccess_calls ys"
  by (induction xs rule: onSuccess_calls.induct) simp_all

lemma success_effect_cases:
  "success_effect p = [] \<or>
   (\<exists>cb. onSuccess p = Some cb \<and> data (result p) = Some True \<and>
         success_effect p = [CallOnSuccess cb True])"
  by (auto simp: success_effect_def split: option.splits)

lemma useEffect_cases: "useEffect same prev deps eff = [] \<or> useEffect same prev deps eff = eff"
  by (simp add: useEffect_def split: option.splits)

lemma removeDoubleSlashes_head: "\<exists>ds. removeDoubleSlashes (c # cs) = c # ds"
proof (induction cs arbitrary: c)
  case Nil
  then show ?case by simp
next
  case (Cons b cs)
  then show ?case by (cases "c = CHR ''/'' \<and> b = CHR ''/''") auto
qed

lemma removeDoubleSlashes_collapsed: "\<not> double_slash (removeDoubleSlashes s)"
proof (induction s rule: removeDoubleSlashes.induct)
  case (1 a b cs)
  obtain ds where ds: "removeDoubleSlashes (b # cs) = b # ds"
    using removeDoubleSlashes_head by blast
  with 1 show ?case by auto
qed simp_all

lemma calls_useAuthState:
  "calls (useAuthState mem p) =
     useEffect same_success_deps (prev_success_deps mem) (success_deps p) (success_effect p) @
     useEffect same_error_deps (prev_error_deps mem) (error_deps p) (error_effect p)"
  by (simp add: useAuthState_def)

lemma memory_useAuthState:
  "prev_success_deps (memory (useAuthState mem p)) = Some (success_deps p)"
  "prev_error_deps (memory (useAuthState mem p)) = Some (error_deps p)"
  by (simp_all add: useAuthState_def)

text \<open>The first effect makes no call other than to \<open>onSuccess\<close>.\<close>

lemma success_effect_other_calls:
  "logout_calls (useEffect same prev deps (success_effect p)) = []"
  "notify_calls (useEffect same prev deps (success_effect p)) = []"
  "onError_calls (useEffect same prev deps (success_effect p)) = []"
  using success_effect_cases [of p] useEffect_cases [of same prev deps "success_effect p"]
  by auto

lemma error_effect_runs_useEffect:
  "error_effect_runs mem p \<Longrightarrow>
   useEffect same_error_deps (prev_error_deps mem) (error_deps p) eff = eff"
  by (cases "prev_error_deps mem") (simp_all add: error_effect_runs_def useEffect_def)

text \<open>
  The second effect runs on the first render, and on a render whose error is not the
  previous render's.
\<close>

lemma error_effect_runs_first: "prev_error_deps mem = None \<Longrightarrow> error_effect_runs mem p"
  by (simp add: error_effect_runs_def)

lemma error_effect_runs_new_error:
  assumes "prev_error_deps mem = Some (b, l, f, n, c, e)"
    and "\<not> object_is e (UseQueryResult.error (result p))"
  shows "error_effect_runs mem p"
  using assms by (simp add: error_effect_runs_def error_deps_def)

text \<open>The second effect when a callback is supplied, ...\<close>

lemma error_effect_onError:
  "onError p = Some cb \<Longrightarrow>
   error_effect p =
     (if truthy (UseQueryResult.error (result p))
      then [CallOnError cb (UseQueryResult.error (result p))] else [])"
  by (simp add: error_effect_def)

text \<open>... and on an error object when none is supplied and \<open>logoutOnFailure\<close> is set.\<close>

lemma error_effect_object:
  assumes "onError p = None" and "logoutOnFailure p"
    and "UseQueryResult.error (result p) = JObj a m r"
  shows "error_effect p =
     Logout []
       (if loose_eq_null r
        then JStr (removeDoubleSlashes (basename p @ ''/'' @ loginUrl (defaultAuthParams p)))
        else r) #
     (if m = JBool False then []
      else [Notify (if truthy m then m else JStr ''ra.auth.auth_check_error'')
                   \<lparr>type = ''error''\<rparr>])"
  using assms
  by (simp add: error_effect_def logout_redirect_def shouldSkipNotify_def getErrorMessage_def)

lemma error_effect_no_onSuccess: "onSuccess_calls (error_effect p) = []"
  by (simp add: error_effect_def Let_def split: option.splits sum.splits)

lemma onSuccess_calls_useAuthState:
  "onSuccess_calls (calls (useAuthState mem p)) =
     onSuccess_calls (useEffect same_success_deps (prev_success_deps mem) (success_deps p)
       (success_effect p))"
  using useEffect_cases [of same_error_deps "prev_error_deps mem" "error_deps p" "error_effect p"]
  by (auto simp: calls_useAuthState onSuccess_calls_append error_effect_no_onSuccess)

lemma onSuccess_calls_payload:
  assumes "(cb, d) \<in> set (onSuccess_calls (calls (useAuthState mem p)))"
  shows "d = True"
  using assms success_effect_cases [of p]
    useEffect_cases [of same_success_deps "prev_success_deps mem" "success_deps p"
      "success_effect p"]
  by (auto simp: onSuccess_calls_useAuthState)

lemma renders_payload:
  "(cb, d) \<in> set (onSuccess_calls (renders mem ps)) \<Longrightarrow> d = True"
proof (induction ps arbitrary: mem)
  case Nil
  then show ?case by simp
next
  case (Cons p ps)
  then show ?case
    by (auto simp: onSuccess_calls_append dest: onSuccess_calls_payload)
qed

lemma no_data_no_onSuccess:
  "data (result p) = None \<Longrightarrow> onSuccess_calls (calls (useAuthState mem p)) = []"
  using useEffect_cases [of same_success_deps "prev_success_deps mem" "success_deps p" "[]"]
  by (auto simp: onSuccess_calls_useAuthState success_effect_def)

text \<open>
  The render on which the pair (callback, \<open>true\<close>) is new calls the callback; a render
  on which it is the same as on the previous one does not.
\<close>

lemma first_success_render:
  assumes "prev_success_deps mem \<noteq> Some (Some cb, Some True)"
    and "onSuccess p = Some cb" and "data (result p) = Some True"
  shows "onSuccess_calls (calls (useAuthState mem p)) = [(cb, True)]"
  using assms
  by (cases "prev_success_deps mem")
    (simp_all add: onSuccess_calls_useAuthState useEffect_def success_deps_def
      same_success_deps_def success_effect_def)

lemma same_success_render:
  assumes "prev_success_deps mem = Some (Some cb, Some True)"
    and "onSuccess p = Some cb" and "data (result p) = Some True"
  shows "onSuccess_calls (calls (useAuthState mem p)) = []"
  using assms
  by (simp add: onSuccess_calls_useAuthState useEffect_def success_deps_def
      same_success_deps_def)

lemma same_success_renders:
  assumes "prev_success_deps mem = Some (Some cb, Some True)"
    and "\<forall>p \<in> set ss. onSuccess p = Some cb \<and> data (result p) = Some True"
  shows "onSuccess_calls (renders mem ss) = []"
  using assms
proof (induction ss arbitrary: mem)
  case Nil
  then show ?case by simp
next
  case (Cons s ss)
  have "prev_success_deps (memory (useAuthState mem s)) = Some (Some cb, Some True)"
    using Cons.prems(2) by (simp add: memory_useAuthState success_deps_def)
  with Cons show ?case
    by (simp add: onSuccess_calls_append same_success_render)
qed

lemma once_per_settlement:
  assumes "prev_success_deps mem \<noteq> Some (Some cb, Some True)"
    and "ss \<noteq> []"
    and "\<forall>p \<in> set ps. data (result p) = None"
    and "\<forall>p \<in> set ss. onSuccess p = Some cb \<and> data (result p) = Some True"
  shows "onSuccess_calls (renders mem (ps @ ss)) = [(cb, True)]"
  using assms(1,3)
proof (induction ps arbitrary: mem)
  case Nil
  obtain s ss' where ss: "ss = s # ss'"
    using assms(2) by (cases ss) auto
  have s: "onSuccess s = Some cb" "data (result s) = Some True"
    and ss': "\<forall>p \<in> set ss'. onSuccess p = Some cb \<and> data (result p) = Some True"
    using assms(4) by (simp_all add: ss)
  have "prev_success_deps (memory (useAuthState mem s)) = Some (Some cb, Some True)"
    using s by (simp add: memory_useAuthState success_deps_def)
  then have "onSuccess_calls (renders (memory (useAuthState mem s)) ss') = []"
    using ss' by (rule same_success_renders)
  then show ?case
    using first_success_render [OF Nil.prems(1) s]
    by (simp add: ss onSuccess_calls_append)
next
  case (Cons p ps)
  have "prev_success_deps (memory (useAuthState mem p)) \<noteq> Some (Some cb, Some True)"
    using Cons.prems(2) by (simp add: memory_useAuthState success_deps_def)
  then have "onSuccess_calls (renders (memory (useAuthState mem p)) (ps @ ss)) = [(cb, True)]"
    using Cons.prems(2) by (intro Cons.IH) simp_all
  then show ?case
    using Cons.prems(2) by (simp add: onSuccess_calls_append no_data_no_onSuccess)
qed

text \<open>Fields of the concrete renders.\<close>

lemma admin_page_fields:
  "onError (admin_page r) = None"
  "onSuccess (admin_page r) = None"
  "logoutOnFailure (admin_page r)"
  "authProvider (admin_page r) = Some \<lparr>checkAuth = (\<lambda>ps. Rejected session_expired)\<rparr>"
  "basename (admin_page r) = ''/admin''"
  "loginUrl (defaultAuthParams (admin_page r)) = ''/login''"
  "result (admin_page r) = r"
  by (simp_all add: admin_page_def)

lemma result_fields:
  "data pending_result = None"
  "UseQueryResult.isLoading pending_result"
  "UseQueryResult.error pending_result = JNull"
  "data success_result = Some True"
  "\<not> UseQueryResult.isLoading success_result"
  "data (failure_result e) = None"
  "\<not> UseQueryResult.isLoading (failure_result e)"
  "UseQueryResult.error (failure_result e) = e"
  by (simp_all add: pending_result_def success_result_def failure_result_def)

lemmas eval_defs =
  useAuthState_def useEffect_def success_effect_def error_effect_def logout_redirect_def
  shouldSkipNotify_def getErrorMessage_def returned_state_def success_deps_def error_deps_def
  same_success_deps_def error_effect_runs_def unmounted_def after_pending_def after_success_def
  admin_page_def pending_result_def success_result_def failure_result_def
  refetch_failure_result_def session_expired_def silent_error_def queryFn_def
  refetching_result_def waiting_page_def

subsection \<open>The returned state\<close>

text \<open>
  A query that failed without data: the comment on line 113 takes "no data and not
  loading any more" as the mark of a failed query, and then, with an AuthProvider
  configured, the returned state has \<open>isLoading\<close> false and \<open>authenticated\<close> false.
\<close>

lemma failure_without_data_state:
  assumes "authProvider p = Some provider"
    and "data (result p) = None"
    and "\<not> UseQueryResult.isLoading (result p)"
  shows "State.isLoading (returned (useAuthState mem p)) = False \<and>
         authenticated (returned (useAuthState mem p)) = False"
  using assms by (simp add: useAuthState_def returned_state_def)

text \<open>
  C1. With an AuthProvider configured, a provider call that was rejected should leave
  \<open>isLoading\<close> false and \<open>authenticated\<close> false. When the query still holds the data
  of an earlier resolved call, \<open>result.data ?? result.isLoading\<close> is that data: on the
  render that sees the rejection the returned state has \<open>authenticated\<close> true, while
  the second effect, which tests \<open>result.error\<close>, logs the user out and notifies.
\<close>

theorem failure_with_data_state:
  "authProvider (admin_page (refetch_failure_result session_expired)) =
     Some \<lparr>checkAuth = (\<lambda>ps. Rejected session_expired)\<rparr> \<and>
   returned (useAuthState after_success (admin_page (refetch_failure_result session_expired))) =
     \<lparr>isLoading = False, authenticated = True,
      error = JObj 1 (JStr ''Session expired'') JUndefined\<rparr> \<and>
   calls (useAuthState after_success (admin_page (refetch_failure_result session_expired))) =
     [Logout [] (JStr ''/admin/login''),
      Notify (JStr ''Session expired'') \<lparr>type = ''error''\<rparr>]"
  by (simp add: eval_defs)

text \<open>
  C2. Without an AuthProvider the returned state has \<open>authenticated\<close> true, whatever
  the query result (outstanding, resolved or failed) and the \<open>params\<close>.
\<close>

theorem no_provider_authenticated:
  assumes "authProvider p = None"
  shows "authenticated (returned (useAuthState mem p)) = True"
  using assms by (simp add: useAuthState_def returned_state_def)

theorem no_provider_authenticated_witness:
  "authProvider ((admin_page (failure_result session_expired))\<lparr>authProvider := None\<rparr>) = None \<and>
   authenticated (returned (useAuthState after_pending
     ((admin_page (failure_result session_expired))\<lparr>authProvider := None\<rparr>))) = True"
proof -
  have h: "authProvider ((admin_page (failure_result session_expired))\<lparr>authProvider := None\<rparr>)
      = None"
    by simp
  show ?thesis
    using h no_provider_authenticated [OF h, of after_pending] by simp
qed

text \<open>
  C3, as stated, fails: the hook returns \<open>result.isLoading\<close> unchanged (line 117), and
  react-query reports a query as loading only while it has no data. Here the provider's
  promise is still outstanding, on a later call for the same key after an earlier one
  resolved; the query holds the earlier data, and the returned state has \<open>isLoading\<close>
  false.
\<close>

theorem outstanding_refetch_counterexample:
  "checkAuth \<lparr>checkAuth = (\<lambda>ps. Outstanding)\<rparr> (params (waiting_page refetching_result)) =
     Outstanding \<and>
   authProvider (waiting_page refetching_result) =
     Some \<lparr>checkAuth = (\<lambda>ps. Outstanding)\<rparr> \<and>
   queryFn (authProvider (waiting_page refetching_result))
     (params (waiting_page refetching_result)) = Some Outstanding \<and>
   returned (useAuthState after_success (waiting_page refetching_result)) =
     \<lparr>isLoading = False, authenticated = True, error = JNull\<rparr>"
  by (simp add: eval_defs)

text \<open>
  C3, amended. While the query is loading (the provider call outstanding and no data
  held; the query function never produces the data \<open>false\<close>) the returned state has
  \<open>authenticated\<close> true and \<open>isLoading\<close> true, for every \<open>params\<close>. While the
  query holds the data \<open>true\<close> of an earlier call and is not loading, as during a later
  call for the same key, the returned state has \<open>authenticated\<close> true and \<open>isLoading\<close>
  false.
\<close>

theorem outstanding_state:
  "(UseQueryResult.isLoading (result p) \<and> data (result p) \<noteq> Some False \<longrightarrow>
      authenticated (returned (useAuthState mem p)) = True \<and>
      State.isLoading (returned (useAuthState mem p)) = True) \<and>
   (\<not> UseQueryResult.isLoading (result p) \<and> data (result p) = Some True \<longrightarrow>
      authenticated (returned (useAuthState mem p)) = True \<and>
      State.isLoading (returned (useAuthState mem p)) = False)"
  by (cases "data (result p)") (simp_all add: useAuthState_def returned_state_def)

theorem outstanding_state_witness:
  "UseQueryResult.isLoading (result (waiting_page pending_result)) \<and>
   data (result (waiting_page pending_result)) \<noteq> Some False \<and>
   authenticated (returned (useAuthState unmounted (waiting_page pending_result))) = True \<and>
   State.isLoading (returned (useAuthState unmounted (waiting_page pending_result))) = True \<and>
   \<not> UseQueryResult.isLoading (result (waiting_page refetching_result)) \<and>
   data (result (waiting_page refetching_result)) = Some True \<and>
   authenticated (returned (useAuthState after_success (waiting_page refetching_result))) =
     True \<and>
   State.isLoading (returned (useAuthState after_success (waiting_page refetching_result))) =
     False"
proof -
  have h1: "UseQueryResult.isLoading (result (waiting_page pending_result)) \<and>
      data (result (waiting_page pending_result)) \<noteq> Some False"
    by (simp add: waiting_page_def admin_page_fields result_fields)
  have h2: "\<not> UseQueryResult.isLoading (result (waiting_page refetching_result)) \<and>
      data (result (waiting_page refetching_result)) = Some True"
    by (simp add: waiting_page_def admin_page_fields refetching_result_def)
  show ?thesis
    using h1 h2 outstanding_state [of "waiting_page pending_result" unmounted]
      outstanding_state [of "waiting_page refetching_result" after_success]
    by simp
qed

subsection \<open>The failure effect\<close>

text \<open>
  C4. On a failure with an error object, with \<open>logoutOnFailure\<close> set and no \<open>onError\<close>
  callback, the effect calls \<open>logout\<close> once, with \<^verbatim>\<open>{}\<close> and with the error's
  \<open>redirectTo\<close> when that is neither \<open>undefined\<close> nor \<open>null\<close>, and otherwise with the
  default login URL: the base name, a separator and the login segment, which has no two
  adjacent separators left. At base name \<open>/admin\<close> that URL is \<open>/admin/login\<close> (the
  witness).
\<close>

theorem logout_on_failure:
  assumes "onError p = None" and "logoutOnFailure p"
    and "UseQueryResult.error (result p) = JObj a m r"
    and "error_effect_runs mem p"
  shows "logout_calls (calls (useAuthState mem p)) =
           [([], if loose_eq_null r
                 then JStr (removeDoubleSlashes
                        (basename p @ ''/'' @ loginUrl (defaultAuthParams p)))
                 else r)] \<and>
         \<not> double_slash (removeDoubleSlashes
              (basename p @ ''/'' @ loginUrl (defaultAuthParams p)))"
proof -
  have "logout_calls (error_effect p) =
          [([], if loose_eq_null r
                then JStr (removeDoubleSlashes
                       (basename p @ ''/'' @ loginUrl (defaultAuthParams p)))
                else r)]"
    by (simp add: error_effect_object [OF assms(1-3)])
  then show ?thesis
    by (simp add: calls_useAuthState logout_calls_append success_effect_other_calls
        error_effect_runs_useEffect [OF assms(4)] removeDoubleSlashes_collapsed)
qed

theorem logout_on_failure_witness:
  "onError (admin_page (failure_result session_expired)) = None \<and>
   logoutOnFailure (admin_page (failure_result session_expired)) \<and>
   UseQueryResult.error (result (admin_page (failure_result session_expired))) =
     JObj 1 (JStr ''Session expired'') JUndefined \<and>
   error_effect_runs after_pending (admin_page (failure_result session_expired)) \<and>
   logout_calls (calls (useAuthState after_pending
     (admin_page (failure_result session_expired)))) = [([], JStr ''/admin/login'')]"
proof -
  have h: "onError (admin_page (failure_result session_expired)) = None"
    "logoutOnFailure (admin_page (failure_result session_expired))"
    "UseQueryResult.error (result (admin_page (failure_result session_expired))) =
       JObj 1 (JStr ''Session expired'') JUndefined"
    "error_effect_runs after_pending (admin_page (failure_result session_expired))"
    by (simp_all add: eval_defs)
  show ?thesis
    using h logout_on_failure [OF h] by (simp add: admin_page_fields)
qed

text \<open>
  C5. On a failure whose error object has \<open>message\<close> exactly \<open>false\<close>, no render calls
  \<open>notify\<close>, whatever \<open>logoutOnFailure\<close> and \<open>onError\<close> are; with \<open>logoutOnFailure\<close>
  set and no \<open>onError\<close>, the effect still calls \<open>logout\<close>, once, with \<^verbatim>\<open>{}\<close>.
\<close>

theorem message_false_no_notify:
  assumes "UseQueryResult.error (result p) = JObj a (JBool False) r"
  shows "notify_calls (calls (useAuthState mem p)) = [] \<and>
         (onError p = None \<and> logoutOnFailure p \<and> error_effect_runs mem p \<longrightarrow>
          (\<exists>target. logout_calls (calls (useAuthState mem p)) = [([], target)]))"
proof -
  have "notify_calls (error_effect p) = []"
  proof (cases "onError p")
    case None
    then show ?thesis
      using assms error_effect_object [OF None _ assms]
      by (cases "logoutOnFailure p") (simp_all add: error_effect_def)
  next
    case (Some cb)
    then show ?thesis by (simp add: error_effect_onError)
  qed
  then have "notify_calls (useEffect same_error_deps (prev_error_deps mem) (error_deps p)
      (error_effect p)) = []"
    using useEffect_cases [of same_error_deps "prev_error_deps mem" "error_deps p"
        "error_effect p"]
    by auto
  moreover have "\<exists>target. logout_calls (calls (useAuthState mem p)) = [([], target)]"
    if "onError p = None" "logoutOnFailure p" "error_effect_runs mem p"
    using that
    by (simp add: calls_useAuthState logout_calls_append success_effect_other_calls
        error_effect_runs_useEffect error_effect_object [OF that(1,2) assms])
  ultimately show ?thesis
    by (simp add: calls_useAuthState notify_calls_append success_effect_other_calls)
qed

theorem message_false_no_notify_witness:
  "UseQueryResult.error (result (admin_page (failure_result silent_error))) =
     JObj 2 (JBool False) JUndefined \<and>
   onError (admin_page (failure_result silent_error)) = None \<and>
   logoutOnFailure (admin_page (failure_result silent_error)) \<and>
   error_effect_runs after_pending (admin_page (failure_result silent_error)) \<and>
   notify_calls (calls (useAuthState after_pending
     (admin_page (failure_result silent_error)))) = [] \<and>
   logout_calls (calls (useAuthState after_pending
     (admin_page (failure_result silent_error)))) = [([], JStr ''/admin/login'')]"
proof -
  have h: "UseQueryResult.error (result (admin_page (failure_result silent_error))) =
      JObj 2 (JBool False) JUndefined"
    by (simp add: eval_defs)
  show ?thesis
    using h message_false_no_notify [OF h, of after_pending] by (simp add: eval_defs)
qed

text \<open>
  C6. With an \<open>onError\<close> callback supplied, no render calls \<open>logout\<close> or \<open>notify\<close>,
  whatever \<open>logoutOnFailure\<close> is, and on a failure the effect calls the callback, once,
  with the error. The effect is guarded by \<^verbatim>\<open>if (result.error)\<close>; every error object
  passes that test.
\<close>

theorem onError_replaces_default:
  assumes "onError p = Some cb"
  shows "logout_calls (calls (useAuthState mem p)) = [] \<and>
         notify_calls (calls (useAuthState mem p)) = [] \<and>
         (truthy (UseQueryResult.error (result p)) \<and> error_effect_runs mem p \<longrightarrow>
          onError_calls (calls (useAuthState mem p)) = [(cb, UseQueryResult.error (result p))])"
proof -
  have "logout_calls (useEffect same_error_deps (prev_error_deps mem) (error_deps p)
      (error_effect p)) = []"
    and "notify_calls (useEffect same_error_deps (prev_error_deps mem) (error_deps p)
      (error_effect p)) = []"
    using useEffect_cases [of same_error_deps "prev_error_deps mem" "error_deps p"
        "error_effect p"]
    by (auto simp: error_effect_onError [OF assms])
  moreover have "onError_calls (calls (useAuthState mem p)) =
      [(cb, UseQueryResult.error (result p))]"
    if "truthy (UseQueryResult.error (result p))" "error_effect_runs mem p"
    using that
    by (simp add: calls_useAuthState onError_calls_append success_effect_other_calls
        error_effect_runs_useEffect error_effect_onError [OF assms])
  ultimately show ?thesis
    by (simp add: calls_useAuthState logout_calls_append notify_calls_append
        success_effect_other_calls)
qed

theorem onError_replaces_default_witness:
  "onError ((admin_page (failure_result session_expired))\<lparr>onError := Some 5\<rparr>) = Some 5 \<and>
   truthy (UseQueryResult.error
     (result ((admin_page (failure_result session_expired))\<lparr>onError := Some 5\<rparr>))) \<and>
   error_effect_runs after_pending
     ((admin_page (failure_result session_expired))\<lparr>onError := Some 5\<rparr>) \<and>
   logout_calls (calls (useAuthState after_pending
     ((admin_page (failure_result session_expired))\<lparr>onError := Some 5\<rparr>))) = [] \<and>
   notify_calls (calls (useAuthState after_pending
     ((admin_page (failure_result session_expired))\<lparr>onError := Some 5\<rparr>))) = [] \<and>
   onError_calls (calls (useAuthState after_pending
     ((admin_page (failure_result session_expired))\<lparr>onError := Some 5\<rparr>))) =
     [(5, JObj 1 (JStr ''Session expired'') JUndefined)]"
proof -
  have h: "onError ((admin_page (failure_result session_expired))\<lparr>onError := Some 5\<rparr>) =
      Some 5"
    by simp
  show ?thesis
    using h onError_replaces_default [OF h, of after_pending] by (simp add: eval_defs)
qed

text \<open>
  C7. When the effect notifies (an error object, \<open>logoutOnFailure\<close> set, no \<open>onError\<close>,
  \<open>message\<close> not \<open>false\<close>), it calls \<open>notify\<close> once, with options
  \<^verbatim>\<open>{type: 'error'}\<close> and with the error's \<open>message\<close> when that is a non-empty string,
  and with \<open>ra.auth.auth_check_error\<close> otherwise. The message of an AuthError is a
  string, \<open>false\<close> or \<open>undefined\<close>; the statement also covers every other falsy message.
\<close>

theorem notify_message:
  assumes "onError p = None" and "logoutOnFailure p"
    and "UseQueryResult.error (result p) = JObj a m r"
    and "m \<noteq> JBool False"
    and "typeof m = TyString \<or> \<not> truthy m"
    and "error_effect_runs mem p"
  shows "notify_calls (calls (useAuthState mem p)) =
           [(if typeof m = TyString \<and> m \<noteq> JStr [] then m
             else JStr ''ra.auth.auth_check_error'',
             \<lparr>type = ''error''\<rparr>)]"
proof -
  have "truthy m \<longleftrightarrow> typeof m = TyString \<and> m \<noteq> JStr []"
    using assms(5) by (cases m) auto
  then have "notify_calls (error_effect p) =
           [(if typeof m = TyString \<and> m \<noteq> JStr [] then m
             else JStr ''ra.auth.auth_check_error'',
             \<lparr>type = ''error''\<rparr>)]"
    using assms(4) by (simp add: error_effect_object [OF assms(1-3)])
  then show ?thesis
    by (simp add: calls_useAuthState notify_calls_append success_effect_other_calls
        error_effect_runs_useEffect [OF assms(6)])
qed

theorem notify_message_witness:
  "onError (admin_page (failure_result session_expired)) = None \<and>
   logoutOnFailure (admin_page (failure_result session_expired)) \<and>
   UseQueryResult.error (result (admin_page (failure_result session_expired))) =
     JObj 1 (JStr ''Session expired'') JUndefined \<and>
   JStr ''Session expired'' \<noteq> JBool False \<and>
   typeof (JStr ''Session expired'') = TyString \<and>
   error_effect_runs after_pending (admin_page (failure_result session_expired)) \<and>
   notify_calls (calls (useAuthState after_pending
     (admin_page (failure_result session_expired)))) =
     [(JStr ''Session expired'', \<lparr>type = ''error''\<rparr>)]"
proof -
  have h: "onError (admin_page (failure_result session_expired)) = None"
    "logoutOnFailure (admin_page (failure_result session_expired))"
    "UseQueryResult.error (result (admin_page (failure_result session_expired))) =
       JObj 1 (JStr ''Session expired'') JUndefined"
    "JStr ''Session expired'' \<noteq> JBool False"
    "typeof (JStr ''Session expired'') = TyString \<or> \<not> truthy (JStr ''Session expired'')"
    "error_effect_runs after_pending (admin_page (failure_result session_expired))"
    by (simp_all add: eval_defs)
  show ?thesis
    using h notify_message [OF h] by simp
qed

text \<open>
  C9. On a failure with no \<open>onError\<close> callback and \<open>logoutOnFailure\<close> false, the
  second effect does nothing: the render calls neither \<open>logout\<close> nor \<open>notify\<close> nor
  \<open>onError\<close>, and when the query has no data it makes no call at all. The returned
  state's \<open>error\<close> is the query's error, unchanged.
\<close>

theorem no_side_effect:
  assumes "onError p = None" and "\<not> logoutOnFailure p"
  shows "error_effect p = [] \<and>
         logout_calls (calls (useAuthState mem p)) = [] \<and>
         notify_calls (calls (useAuthState mem p)) = [] \<and>
         onError_calls (calls (useAuthState mem p)) = [] \<and>
         (data (result p) = None \<longrightarrow> calls (useAuthState mem p) = []) \<and>
         State.error (returned (useAuthState mem p)) = UseQueryResult.error (result p)"
proof -
  have e: "error_effect p = []"
    using assms by (simp add: error_effect_def Let_def)
  have "success_effect p = []" if "data (result p) = None"
    using that by (simp add: success_effect_def)
  then show ?thesis
    using e useEffect_cases [of same_error_deps "prev_error_deps mem" "error_deps p" "[]"]
      useEffect_cases [of same_success_deps "prev_success_deps mem" "success_deps p" "[]"]
    by (auto simp: calls_useAuthState logout_calls_append notify_calls_append
        onError_calls_append success_effect_other_calls useAuthState_def returned_state_def)
qed

theorem no_side_effect_witness:
  "onError ((admin_page (failure_result session_expired))\<lparr>logoutOnFailure := False\<rparr>) = None \<and>
   \<not> logoutOnFailure ((admin_page (failure_result session_expired))\<lparr>logoutOnFailure := False\<rparr>) \<and>
   data (result ((admin_page (failure_result session_expired))\<lparr>logoutOnFailure := False\<rparr>)) =
     None \<and>
   calls (useAuthState after_pending
     ((admin_page (failure_result session_expired))\<lparr>logoutOnFailure := False\<rparr>)) = [] \<and>
   State.error (returned (useAuthState after_pending
     ((admin_page (failure_result session_expired))\<lparr>logoutOnFailure := False\<rparr>))) =
     JObj 1 (JStr ''Session expired'') JUndefined"
proof -
  have h: "onError ((admin_page (failure_result session_expired))\<lparr>logoutOnFailure := False\<rparr>) =
      None"
    "\<not> logoutOnFailure ((admin_page (failure_result session_expired))\<lparr>logoutOnFailure := False\<rparr>)"
    by (simp_all add: admin_page_fields)
  show ?thesis
    using h no_side_effect [OF h, of after_pending] by (simp add: eval_defs)
qed

subsection \<open>The success effect\<close>

text \<open>
  C8, as stated, fails: the first effect depends on \<open>[onSuccess, result.data]\<close>, so it
  runs again whenever the callback passed on a render is another function than on the
  previous render. Here one settlement is rendered three times, with callbacks 1, 2
  and 1 again; callback 1 is called twice.
\<close>

theorem onSuccess_repeated_counterexample:
  "onSuccess_calls (renders unmounted
     [admin_page pending_result,
      (admin_page success_result)\<lparr>onSuccess := Some 1\<rparr>,
      (admin_page success_result)\<lparr>onSuccess := Some 2\<rparr>,
      (admin_page success_result)\<lparr>onSuccess := Some 1\<rparr>]) =
     [(1, True), (2, True), (1, True)]"
  by (simp add: eval_defs)

text \<open>
  C8, amended. A component is mounted and rendered any number of times while the call
  is outstanding (\<open>ps\<close>), then at least once after it resolved (\<open>ss\<close>: data \<open>true\<close>,
  not loading). On each render of \<open>ss\<close> the returned state has \<open>isLoading\<close> false and
  \<open>authenticated\<close> true; and if the same \<open>onSuccess\<close> callback is passed on every
  render of \<open>ss\<close>, it is called exactly once over the whole sequence, with \<open>true\<close>.
\<close>

theorem success_state_and_callback:
  assumes "ss \<noteq> []"
    and "\<forall>p \<in> set ps. data (result p) = None"
    and "\<forall>p \<in> set ss. data (result p) = Some True \<and> \<not> UseQueryResult.isLoading (result p) \<and>
           onSuccess p = Some cb"
  shows "onSuccess_calls (renders unmounted (ps @ ss)) = [(cb, True)] \<and>
         (\<forall>p \<in> set ss. State.isLoading (returned (useAuthState mem p)) = False \<and>
                       authenticated (returned (useAuthState mem p)) = True)"
proof -
  have "prev_success_deps unmounted \<noteq> Some (Some cb, Some True)"
    by (simp add: unmounted_def)
  then have "onSuccess_calls (renders unmounted (ps @ ss)) = [(cb, True)]"
    using assms by (intro once_per_settlement) simp_all
  then show ?thesis
    using assms(3) by (simp add: useAuthState_def returned_state_def)
qed

theorem success_state_and_callback_witness:
  "data (result (admin_page pending_result)) = None \<and>
   data (result ((admin_page success_result)\<lparr>onSuccess := Some 1\<rparr>)) = Some True \<and>
   \<not> UseQueryResult.isLoading (result ((admin_page success_result)\<lparr>onSuccess := Some 1\<rparr>)) \<and>
   onSuccess ((admin_page success_result)\<lparr>onSuccess := Some 1\<rparr>) = Some 1 \<and>
   onSuccess_calls (renders unmounted
     ([admin_page pending_result] @
      [(admin_page success_result)\<lparr>onSuccess := Some 1\<rparr>,
       (admin_page success_result)\<lparr>onSuccess := Some 1\<rparr>])) = [(1, True)] \<and>
   State.isLoading (returned (useAuthState after_pending
     ((admin_page success_result)\<lparr>onSuccess := Some 1\<rparr>))) = False \<and>
   authenticated (returned (useAuthState after_pending
     ((admin_page success_result)\<lparr>onSuccess := Some 1\<rparr>))) = True"
proof -
  have h: "[(admin_page success_result)\<lparr>onSuccess := Some 1\<rparr>,
      (admin_page success_result)\<lparr>onSuccess := Some 1\<rparr>] \<noteq> []"
    "\<forall>p \<in> set [admin_page pending_result]. data (result p) = None"
    "\<forall>p \<in> set [(admin_page success_result)\<lparr>onSuccess := Some 1\<rparr>,
               (admin_page success_result)\<lparr>onSuccess := Some 1\<rparr>].
      data (result p) = Some True \<and> \<not> UseQueryResult.isLoading (result p) \<and>
      onSuccess p = Some 1"
    by (simp_all add: admin_page_fields result_fields)
  show ?thesis
    using h success_state_and_callback [OF h, of after_pending] by simp
qed

text \<open>
  C10. Over any sequence of renders, every call of \<open>onSuccess\<close> has the argument
  \<open>true\<close>; and whatever \<open>checkAuth\<close> resolves to, the promise of the query function
  resolves to \<open>true\<close>.
\<close>

theorem onSuccess_payload_true:
  "(\<forall>c \<in> set (onSuccess_calls (renders mem ps)). snd c = True) \<and>
   (checkAuth provider prm = Fulfilled v \<longrightarrow>
    queryFn (Some provider) prm = Some (Fulfilled True))"
  using renders_payload [of _ _ mem ps] by (auto simp: queryFn_def)

theorem onSuccess_payload_true_witness:
  "(1, True) \<in> set (onSuccess_calls (renders unmounted
     [admin_page pending_result, (admin_page success_result)\<lparr>onSuccess := Some 1\<rparr>])) \<and>
   snd (1 :: nat, True) = True \<and>
   checkAuth \<lparr>checkAuth = (\<lambda>ps. Fulfilled JUndefined)\<rparr> JNull = Fulfilled JUndefined \<and>
   queryFn (Some \<lparr>checkAuth = (\<lambda>ps. Fulfilled JUndefined)\<rparr>) JNull = Some (Fulfilled True)"
  using onSuccess_payload_true [of unmounted
      "[admin_page pending_result, (admin_page success_result)\<lparr>onSuccess := Some 1\<rparr>]"
      "\<lparr>checkAuth = (\<lambda>ps. Fulfilled JUndefined)\<rparr>" JNull JUndefined]
  by (simp add: eval_defs)

end
